theory Spec2Isabelle
  imports
    Main
    "HOL-Library.Sublist"
    "HOL-Library.Char_ord"
    "HOL-Library.List_Lexorder"
    "HOL-Library.Product_Lexorder"
    "HOL-Library.Multiset"
begin

section \<open>The name sanitizer (internal/sanitizer)\<close>

subsection \<open>Runes and the Unicode tables\<close>

text \<open>
  \<^verbatim>\<open>SanitizeName\<close> receives a Go string, deletes the control characters with a regexp
  and converts what is left to runes (\<^verbatim>\<open>[]rune(name)\<close>); from there on it works on
  runes. The model takes the name as the list of its runes, a rune being a natural
  number (a code point; a byte that is not valid UTF-8 reads as U+FFFD).
  \<^item> For a string that is valid UTF-8 the model computes what the code computes:
    deleting the control characters from the string and then reading the runes is
    reading the runes and then deleting those from 0 to 31.
  \<^item> For any other string the code's result is the model's result on the runes of the
    string without its control bytes (deleting a control byte can join two fragments
    into one valid sequence), so what is proved of \<open>SanitizeName\<close> for every list of
    runes holds of the code for every string.
  \<^item> Every rune that \<^verbatim>\<open>processCharacters\<close> emits is below 128, so from there on one
    rune is one byte, and \<^verbatim>\<open>len\<close> and the slice \<^verbatim>\<open>name[:n]\<close> of the source are \<open>length\<close>
    and \<open>take n\<close>.
\<close>

type_synonym rune = nat

text \<open>
  The predicates of Go's package \<^verbatim>\<open>unicode\<close> are tables of the standard library, not
  of this repository: they are a parameter of the model. \<^verbatim>\<open>unicodeToASCII\<close> consults
  them for runes above 127 only.
\<close>

record unicode =
  IsLetter :: "rune \<Rightarrow> bool"
  IsUpper :: "rune \<Rightarrow> bool"
  IsDigit :: "rune \<Rightarrow> bool"
  IsSpace :: "rune \<Rightarrow> bool"
  IsPunct :: "rune \<Rightarrow> bool"
  ToUpper :: "rune \<Rightarrow> rune"

text \<open>A table that knows no character beyond ASCII; for inputs that are ASCII no
  table is consulted at all (lemma \<open>SanitizeName_ascii_tables\<close>).\<close>

definition ascii_unicode :: unicode where
  "ascii_unicode =
     \<lparr>IsLetter = (\<lambda>r. False), IsUpper = (\<lambda>r. False), IsDigit = (\<lambda>r. False),
      IsSpace = (\<lambda>r. False), IsPunct = (\<lambda>r. False), ToUpper = (\<lambda>r. r)\<rparr>"

text \<open>The runes of an ASCII literal.\<close>

definition runes :: "string \<Rightarrow> rune list" where
  "runes s = map of_char s"

subsection \<open>The sanitizer's constants\<close>

text \<open>\<^verbatim>\<open>invalidChars: []rune{'<', '>', ':', '"', '|', '?', '*', '\\', '/'}\<close>\<close>

definition invalidChars :: "rune list" where
  "invalidChars = [0x3C, 0x3E, 0x3A, 0x22, 0x7C, 0x3F, 0x2A, 0x5C, 0x2F]"

definition reservedNames :: "rune list list" where
  "reservedNames = map runes
     [''CON'', ''PRN'', ''AUX'', ''NUL'',
      ''COM1'', ''COM2'', ''COM3'', ''COM4'', ''COM5'',
      ''COM6'', ''COM7'', ''COM8'', ''COM9'',
      ''LPT1'', ''LPT2'', ''LPT3'', ''LPT4'', ''LPT5'',
      ''LPT6'', ''LPT7'', ''LPT8'', ''LPT9'']"

definition maxNameLength :: nat where
  "maxNameLength = 255"

text \<open>The literal \<^verbatim>\<open>"_empty_"\<close>.\<close>

definition placeholder :: "rune list" where
  "placeholder = runes ''_empty_''"

text \<open>\<^verbatim>\<open>controlCharsRegex.ReplaceAllString(name, "")\<close> with the regexp \<^verbatim>\<open>[\x00-\x1F]\<close>:
  every rune from 0 to 31 is deleted.\<close>

definition removeControlChars :: "rune list \<Rightarrow> rune list" where
  "removeControlChars name = filter (\<lambda>r. \<not> r \<le> 0x1F) name"

subsection \<open>Unicode to ASCII\<close>

fun containsRune :: "rune list \<Rightarrow> rune \<Rightarrow> bool" where
  "containsRune [] r = False"
| "containsRune (item # slice) r = (if item = r then True else containsRune slice r)"

text \<open>The map literal of \<^verbatim>\<open>unicodeLatinToASCII\<close>, in the order of the source
  (U+00C0 .. U+00FF without U+00D7 and U+00F7).\<close>

definition replacements :: "(rune \<times> rune) list" where
  "replacements =
    [(0xC0, 0x41), (0xC1, 0x41), (0xC2, 0x41), (0xC3, 0x41), (0xC4, 0x41), (0xC5, 0x41), (0xC6, 0x41),
     (0xC7, 0x43), (0xC8, 0x45), (0xC9, 0x45), (0xCA, 0x45), (0xCB, 0x45), (0xCC, 0x49), (0xCD, 0x49),
     (0xCE, 0x49), (0xCF, 0x49), (0xD0, 0x44), (0xD1, 0x4E), (0xD2, 0x4F), (0xD3, 0x4F), (0xD4, 0x4F),
     (0xD5, 0x4F), (0xD6, 0x4F), (0xD8, 0x4F), (0xD9, 0x55), (0xDA, 0x55), (0xDB, 0x55), (0xDC, 0x55),
     (0xDD, 0x59), (0xDE, 0x54), (0xDF, 0x73), (0xE0, 0x61), (0xE1, 0x61), (0xE2, 0x61), (0xE3, 0x61),
     (0xE4, 0x61), (0xE5, 0x61), (0xE6, 0x61), (0xE7, 0x63), (0xE8, 0x65), (0xE9, 0x65), (0xEA, 0x65),
     (0xEB, 0x65), (0xEC, 0x69), (0xED, 0x69), (0xEE, 0x69), (0xEF, 0x69), (0xF0, 0x64), (0xF1, 0x6E),
     (0xF2, 0x6F), (0xF3, 0x6F), (0xF4, 0x6F), (0xF5, 0x6F), (0xF6, 0x6F), (0xF8, 0x6F), (0xF9, 0x75),
     (0xFA, 0x75), (0xFB, 0x75), (0xFC, 0x75), (0xFD, 0x79), (0xFE, 0x74), (0xFF, 0x79)]"

text \<open>The result 0 stands for "no replacement", as in the source.\<close>

definition unicodeLatinToASCII :: "rune \<Rightarrow> rune" where
  "unicodeLatinToASCII r =
     (case map_of replacements r of Some ascii \<Rightarrow> ascii | None \<Rightarrow> 0)"

definition unicodeExtendedLatinToASCII :: "unicode \<Rightarrow> rune \<Rightarrow> rune" where
  "unicodeExtendedLatinToASCII U r =
     (if 0x0100 \<le> r \<and> r \<le> 0x0105 then (if r mod 2 = 0 then 0x41 else 0x61)
      else if 0x0106 \<le> r \<and> r \<le> 0x010D then (if r mod 2 = 0 then 0x43 else 0x63)
      else if 0x010E \<le> r \<and> r \<le> 0x0111 then (if r mod 2 = 0 then 0x44 else 0x64)
      else if 0x0112 \<le> r \<and> r \<le> 0x011B then (if r mod 2 = 0 then 0x45 else 0x65)
      else if IsUpper U r then 0x41 else 0x61)"

definition unicodeToASCII :: "unicode \<Rightarrow> rune \<Rightarrow> rune" where
  "unicodeToASCII U r =
     (if 0xC0 \<le> r \<and> r \<le> 0xDD then unicodeLatinToASCII r
      else if 0xE0 \<le> r \<and> r \<le> 0xFF then unicodeLatinToASCII r
      else if 0x0100 \<le> r \<and> r \<le> 0x017F then unicodeExtendedLatinToASCII U r
      else if IsLetter U r then (if IsUpper U r then 0x41 else 0x61)
      else if IsDigit U r then 0x30
      else if IsSpace U r then 0x20
      else if IsPunct U r then 0x5F
      else 0)"

text \<open>The loop of \<^verbatim>\<open>processCharacters\<close>: one output rune for each input rune.\<close>

fun processCharacters :: "unicode \<Rightarrow> rune list \<Rightarrow> rune list" where
  "processCharacters U [] = []"
| "processCharacters U (r # rest) =
     (if containsRune invalidChars r then 0x5F # processCharacters U rest
      else if r > 127 then
        (let ascii = unicodeToASCII U r
         in if ascii \<noteq> 0 then ascii # processCharacters U rest
            else 0x5F # processCharacters U rest)
      else r # processCharacters U rest)"

subsection \<open>The functions of package strings\<close>

text \<open>\<^verbatim>\<open>strings.TrimSpace\<close> removes leading and trailing white space as Unicode defines
  it; below 128 that is tab, line feed, vertical tab, form feed, carriage return and
  space.\<close>

definition isSpace :: "unicode \<Rightarrow> rune \<Rightarrow> bool" where
  "isSpace U r = (if r < 128 then r \<in> {0x09, 0x0A, 0x0B, 0x0C, 0x0D, 0x20} else IsSpace U r)"

definition TrimSpace :: "unicode \<Rightarrow> rune list \<Rightarrow> rune list" where
  "TrimSpace U s = rev (dropWhile (isSpace U) (rev (dropWhile (isSpace U) s)))"

text \<open>\<^verbatim>\<open>strings.TrimRight(s, cutset)\<close> removes every trailing rune that is in the cutset.\<close>

definition TrimRight :: "rune list \<Rightarrow> rune list \<Rightarrow> rune list" where
  "TrimRight s cutset = rev (dropWhile (\<lambda>r. r \<in> set cutset) (rev s))"

text \<open>\<^verbatim>\<open>strings.ToUpper\<close>: below 128 the letters a..z are moved to A..Z.\<close>

definition toUpperRune :: "unicode \<Rightarrow> rune \<Rightarrow> rune" where
  "toUpperRune U r =
     (if r < 128 then (if 0x61 \<le> r \<and> r \<le> 0x7A then r - 0x20 else r) else ToUpper U r)"

definition ToUpperString :: "unicode \<Rightarrow> rune list \<Rightarrow> rune list" where
  "ToUpperString U s = map (toUpperRune U) s"

subsection \<open>The Windows rules and the entry point\<close>

definition applyWindowsRules :: "unicode \<Rightarrow> rune list \<Rightarrow> rune list" where
  "applyWindowsRules U name0 =
     (let name1 = TrimSpace U name0 in
      if name1 = [] then placeholder
      else
        let name2 = TrimRight name1 (runes ''. '') in
        if name2 = [] then placeholder
        else
          let upperName = ToUpperString U name2;
              name3 = (if upperName \<in> set reservedNames then name2 @ runes ''_'' else name2);
              name4 = (if length name3 > maxNameLength
                       then take (maxNameLength - 3) name3 @ runes ''...'' else name3)
          in if TrimSpace U name4 = [] then placeholder else name4)"

definition SanitizeName :: "unicode \<Rightarrow> rune list \<Rightarrow> rune list" where
  "SanitizeName U name =
     (if name = [] then placeholder
      else applyWindowsRules U (processCharacters U (removeControlChars name)))"

text \<open>The older entry point of package main, \<^verbatim>\<open>sanitizeFolderName\<close>: the same steps in
  one function; after an empty trim it stores the placeholder and goes on instead of
  returning.\<close>

definition sanitizeFolderName :: "unicode \<Rightarrow> rune list \<Rightarrow> rune list" where
  "sanitizeFolderName U name =
     (if name = [] then placeholder
      else
        let sanitized = processCharacters U (removeControlChars name);
            result1 = TrimSpace U sanitized;
            result2 = (if result1 = [] then placeholder else result1);
            result3 = TrimRight result2 (runes ''. '');
            result4 = (if result3 = [] then placeholder else result3);
            upperResult = ToUpperString U result4;
            result5 = (if upperResult \<in> set reservedNames then result4 @ runes ''_'' else result4);
            result6 = (if length result5 > 255 then take 252 result5 @ runes ''...'' else result5)
        in if TrimSpace U result6 = [] then placeholder else result6)"


section \<open>Shared types (internal/interfaces)\<close>

text \<open>Outside the sanitizer a Go string is the list of its bytes: \<^typ>\<open>string\<close>.
  Go compares strings byte by byte, which is the lexicographic order on \<^typ>\<open>char list\<close>.\<close>

type_synonym path = string

text \<open>Go's \<^verbatim>\<open>error\<close> values: the errors of package os that the code tells apart,
  the sentinel \<^verbatim>\<open>filepath.SkipDir\<close>, and \<^verbatim>\<open>fmt.Errorf\<close> without and with a wrapped cause
  (\<^verbatim>\<open>%w\<close>; the string is the text in front of the cause).\<close>

datatype error =
    ErrPermission
  | ErrNotExist
  | ErrOther string
  | SkipDir
  | Errorf string
  | ErrorfW string error

record FolderInfo =
  Path :: path
  Name :: string
  Depth :: int
  Parent :: path

record RenameResult =
  Success :: bool
  OldPath :: path
  NewPath :: path
  WasRenamed :: bool
  Error :: "error option"

record ProcessingSummary =
  TotalFolders :: int
  ProcessedCount :: int
  RenamedCount :: int
  ErrorCount :: int
  SkippedCount :: int
  ElapsedTime :: string

section \<open>The standard library as the program uses it\<close>

subsection \<open>Formatting integers\<close>

text \<open>The verb \<^verbatim>\<open>%d\<close> of package fmt: decimal digits, a minus sign for a negative number.\<close>

fun digits :: "nat \<Rightarrow> string" where
  "digits n =
     (if n < 10 then [''0123456789'' ! n] else digits (n div 10) @ [''0123456789'' ! (n mod 10)])"

declare digits.simps [simp del]

definition Itoa :: "int \<Rightarrow> string" where
  "Itoa i = (if i < 0 then CHR ''-'' # digits (nat (- i)) else digits (nat i))"

subsection \<open>path/filepath on a system whose separator is the slash\<close>

text \<open>
  The functions of path/filepath belong to Go's standard library. They are modelled
  for clean slash-separated paths, which is what the program hands them: the root
  comes from \<^verbatim>\<open>filepath.Abs\<close>, every other path is built by \<^verbatim>\<open>filepath.Join\<close> from a
  clean directory and one name.
  \<^item> \<open>Ext\<close> is the library's loop: from the end of the path back to the last separator,
    the suffix that starts at the first dot met.
  \<^item> \<open>Join dir name\<close> puts one separator between a clean directory and a name.
  \<^item> \<open>Dir\<close> drops the last element and the separator in front of it, \<open>Base\<close> is the
    last element.
  \<^item> \<open>Rel base targ\<close> is modelled where the walk uses it, for a target that is the base
    or lies below it; elsewhere the library answers with a path through \<^verbatim>\<open>..\<close> or an
    error, and the model with \<open>None\<close> (lemma \<open>walk_visits_below\<close> shows that the walk
    never asks for it).
\<close>

definition Separator :: char where
  "Separator = CHR ''/''"

fun extScan :: "string \<Rightarrow> string \<Rightarrow> string" where
  "extScan [] tail = []"
| "extScan (c # front) tail =
     (if c = Separator then []
      else if c = CHR ''.'' then c # tail
      else extScan front (c # tail))"

definition Ext :: "string \<Rightarrow> string" where
  "Ext p = extScan (rev p) []"

definition Join :: "path \<Rightarrow> string \<Rightarrow> path" where
  "Join dir name = dir @ Separator # name"

definition stripSeparators :: "string \<Rightarrow> string" where
  "stripSeparators p = rev (dropWhile (\<lambda>c. c = Separator) (rev p))"

definition Base :: "path \<Rightarrow> string" where
  "Base p =
     (if p = [] then ''.''
      else
        let p1 = stripSeparators p;
            elem = rev (takeWhile (\<lambda>c. c \<noteq> Separator) (rev p1))
        in if elem = [] then [Separator] else elem)"

definition Dir :: "path \<Rightarrow> path" where
  "Dir p =
     (let d = rev (dropWhile (\<lambda>c. c \<noteq> Separator) (rev p))
      in if d = [] then ''.''
         else if stripSeparators d = [] then [Separator]
         else stripSeparators d)"

definition Rel :: "path \<Rightarrow> path \<Rightarrow> string option" where
  "Rel base targ =
     (if targ = base then Some ''.''
      else if prefix (base @ [Separator]) targ then Some (drop (length base + 1) targ)
      else None)"

text \<open>\<^verbatim>\<open>os.IsPermission\<close> looks at the error of the os package itself; it does not unwrap
  an error made by \<^verbatim>\<open>fmt.Errorf\<close>.\<close>

definition IsPermission :: "error \<Rightarrow> bool" where
  "IsPermission e = (e = ErrPermission)"

subsection \<open>The file system seen by the processor\<close>

text \<open>
  \<^verbatim>\<open>os.Stat\<close> and \<^verbatim>\<open>os.Rename\<close> are the operating system's: a parameter, over any type
  \<open>'w\<close> of file-system states. \<open>Stat\<close> answers \<open>None\<close> for a nil error; \<open>Rename\<close> answers
  with its error and the state it leaves.
\<close>

record 'w os =
  Stat :: "'w \<Rightarrow> path \<Rightarrow> error option"
  Rename :: "'w \<Rightarrow> path \<Rightarrow> path \<Rightarrow> error option \<times> 'w"

text \<open>The calls a run makes, in order.\<close>

datatype fsop = OpStat path | OpRename path path

text \<open>Two small file systems for concrete runs: a state is the list of the paths that
  exist. In \<open>list_os\<close> a rename moves an existing source to a free target; \<open>readonly_os\<close>
  refuses every rename.\<close>

definition list_os :: "path list os" where
  "list_os =
     \<lparr>Stat = (\<lambda>w p. if p \<in> set w then None else Some ErrNotExist),
      Rename = (\<lambda>w old new.
         if old \<notin> set w then (Some ErrNotExist, w)
         else if new \<in> set w then (Some (ErrOther ''file exists''), w)
         else (None, new # removeAll old w))\<rparr>"

definition readonly_os :: "path list os" where
  "readonly_os =
     \<lparr>Stat = (\<lambda>w p. if p \<in> set w then None else Some ErrNotExist),
      Rename = (\<lambda>w old new. (Some ErrPermission, w))\<rparr>"

section \<open>The rename processor (internal/processor)\<close>

record FileSystemProcessor =
  maxCollisionRetries :: int

definition NewFileSystemProcessor :: "int \<Rightarrow> FileSystemProcessor" where
  "NewFileSystemProcessor n = \<lparr>maxCollisionRetries = (if n \<le> 0 then 1000 else n)\<rparr>"

definition pathExists :: "'w os \<Rightarrow> 'w \<Rightarrow> path \<Rightarrow> bool" where
  "pathExists sys w p = (Stat sys w p = None)"

definition performRename :: "'w os \<Rightarrow> 'w \<Rightarrow> path \<Rightarrow> path \<Rightarrow> error option \<times> 'w" where
  "performRename sys w oldPath newPath =
     (case Rename sys w oldPath newPath of
        (Some err, w') \<Rightarrow>
          (Some (ErrorfW (''failed to rename '' @ [CHR 0x27] @ oldPath @ [CHR 0x27] @ '' to ''
              @ [CHR 0x27] @ newPath @ [CHR 0x27] @ '': '') err), w')
      | (None, w') \<Rightarrow> (None, w'))"

text \<open>The candidate of the numbered loop: \<^verbatim>\<open>fmt.Sprintf("%s_%d%s", nameWithoutExt, counter, ext)\<close>,
  or \<^verbatim>\<open>"%s_%d"\<close> when there is no extension.\<close>

definition candidateName :: "string \<Rightarrow> string \<Rightarrow> int \<Rightarrow> string" where
  "candidateName nameWithoutExt ext counter =
     (if ext \<noteq> [] then nameWithoutExt @ ''_'' @ Itoa counter @ ext
      else nameWithoutExt @ ''_'' @ Itoa counter)"

text \<open>The loop \<^verbatim>\<open>for counter := 1; counter <= fsp.maxCollisionRetries; counter++\<close>, from any
  value of the counter; it answers with the path and the stat calls it made.\<close>

function tryCandidates ::
  "'w os \<Rightarrow> FileSystemProcessor \<Rightarrow> 'w \<Rightarrow> path \<Rightarrow> string \<Rightarrow> string \<Rightarrow> string \<Rightarrow> int
    \<Rightarrow> path \<times> fsop list" where
  "tryCandidates sys fsp w dir baseName nameWithoutExt ext counter =
     (if counter \<le> maxCollisionRetries fsp then
        (let candidatePath = Join dir (candidateName nameWithoutExt ext counter)
         in if \<not> pathExists sys w candidatePath then (candidatePath, [OpStat candidatePath])
            else
              (let (found, ops) =
                     tryCandidates sys fsp w dir baseName nameWithoutExt ext (counter + 1)
               in (found, OpStat candidatePath # ops)))
      else (Join dir (baseName @ ''_conflict''), []))"
  by pat_completeness auto
termination
  by (relation "measure (\<lambda>(sys, fsp, w, dir, baseName, nameWithoutExt, ext, counter).
        nat (maxCollisionRetries fsp + 1 - counter))") auto

declare tryCandidates.simps [simp del]

definition resolveNameCollision ::
  "'w os \<Rightarrow> FileSystemProcessor \<Rightarrow> 'w \<Rightarrow> path \<Rightarrow> string \<Rightarrow> (path \<times> error option) \<times> fsop list" where
  "resolveNameCollision sys fsp w targetPath baseName =
     (if \<not> pathExists sys w targetPath then ((targetPath, None), [OpStat targetPath])
      else
        let dir = Dir targetPath;
            ext = Ext baseName;
            nameWithoutExt =
              (if ext \<noteq> [] then take (length baseName - length ext) baseName else baseName);
            (found, ops) = tryCandidates sys fsp w dir baseName nameWithoutExt ext 1
        in ((found, None), OpStat targetPath # ops))"

text \<open>\<open>ProcessRename\<close> answers with Go's pair (result, error), the file-system calls it
  made and the state it leaves.\<close>

definition ProcessRename ::
  "'w os \<Rightarrow> FileSystemProcessor \<Rightarrow> FolderInfo \<Rightarrow> string \<Rightarrow> bool \<Rightarrow> 'w
    \<Rightarrow> (RenameResult option \<times> error option) \<times> fsop list \<times> 'w" where
  "ProcessRename sys fsp folder newName dryRun w =
     (let result = \<lparr>Success = False, OldPath = Path folder, NewPath = [],
                     WasRenamed = False, Error = None\<rparr>
      in if newName = Name folder then
           ((Some (result\<lparr>Success := True, NewPath := Path folder, WasRenamed := False\<rparr>), None),
            [], w)
         else
           let newPath = Join (Parent folder) newName;
               ((finalPath, err), ops) = resolveNameCollision sys fsp w newPath newName
           in case err of
                Some e \<Rightarrow>
                  ((Some (result\<lparr>Error := Some (ErrorfW ''failed to resolve name collision: '' e)\<rparr>),
                    None), ops, w)
              | None \<Rightarrow>
                  let result1 = result\<lparr>NewPath := finalPath, WasRenamed := True\<rparr>
                  in if dryRun then ((Some (result1\<lparr>Success := True\<rparr>), None), ops, w)
                     else
                       (case performRename sys w (Path folder) finalPath of
                          (Some e, w') \<Rightarrow>
                            ((Some (result1\<lparr>Error := Some (ErrorfW ''rename operation failed: '' e)\<rparr>),
                              None), ops @ [OpRename (Path folder) finalPath], w')
                        | (None, w') \<Rightarrow>
                            ((Some (result1\<lparr>Success := True\<rparr>), None),
                             ops @ [OpRename (Path folder) finalPath], w')))"


section \<open>The directory walker (internal/walker)\<close>

record FileSystemWalker =
  skipInaccessible :: bool
  maxDepth :: int


subsection \<open>The tree that is walked, and filepath.Walk\<close>

text \<open>
  What the walk can meet below a path: something that is not a directory (\<^verbatim>\<open>Lstat\<close>
  reports a symbolic link as such), a directory with its entries in the order
  \<^verbatim>\<open>readDirNames\<close> lists them, a directory whose listing fails, and an entry whose
  \<^verbatim>\<open>Lstat\<close> fails.
\<close>

datatype node =
    File
  | Directory "(string \<times> node) list"
  | Unreadable error
  | NoStat error

fun isDirNode :: "node \<Rightarrow> bool" where
  "isDirNode (Directory entries) = True"
| "isDirNode (Unreadable e) = True"
| "isDirNode File = False"
| "isDirNode (NoStat e) = False"

fun lstatFails :: "node \<Rightarrow> bool" where
  "lstatFails (NoStat e) = True"
| "lstatFails File = False"
| "lstatFails (Directory entries) = False"
| "lstatFails (Unreadable e) = False"

text \<open>
  \<^verbatim>\<open>filepath.Walk\<close> of the standard library, for any callback: the callback gets the
  path, whether the \<^verbatim>\<open>FileInfo\<close> is a directory (the info is nil only together with
  an error, and then the callback of this program does not read it) and the error. A
  directory is reported once, after the attempt to list it, with the error of that
  attempt. An answer \<^verbatim>\<open>SkipDir\<close> for a directory skips its entries; any other error
  ends the walk.
\<close>

fun walk ::
    "(path \<Rightarrow> bool \<Rightarrow> error option \<Rightarrow> 's \<Rightarrow> error option \<times> 's)
      \<Rightarrow> path \<Rightarrow> node \<Rightarrow> 's \<Rightarrow> error option \<times> 's"
  and walkNames ::
    "(path \<Rightarrow> bool \<Rightarrow> error option \<Rightarrow> 's \<Rightarrow> error option \<times> 's)
      \<Rightarrow> path \<Rightarrow> (string \<times> node) list \<Rightarrow> 's \<Rightarrow> error option \<times> 's" where
  "walk walkFn p File st = walkFn p False None st"
| "walk walkFn p (Unreadable e) st = walkFn p True (Some e) st"
| "walk walkFn p (NoStat e) st = walkFn p False (Some e) st"
| "walk walkFn p (Directory entries) st =
     (case walkFn p True None st of
        (Some err1, st1) \<Rightarrow> (Some err1, st1)
      | (None, st1) \<Rightarrow> walkNames walkFn p entries st1)"
| "walkNames walkFn p [] st = (None, st)"
| "walkNames walkFn p ((name, nd) # rest) st =
     (case walk walkFn (Join p name) nd st of
        (Some err, st1) \<Rightarrow>
          if (if lstatFails nd then err \<noteq> SkipDir else \<not> isDirNode nd \<or> err \<noteq> SkipDir)
          then (Some err, st1)
          else walkNames walkFn p rest st1
      | (None, st1) \<Rightarrow> walkNames walkFn p rest st1)"


subsection \<open>The walker's own functions\<close>


definition calculateDepth :: "path \<Rightarrow> path \<Rightarrow> int" where
  "calculateDepth p root =
     (case Rel root p of
        None \<Rightarrow> 0
      | Some relPath \<Rightarrow>
          if relPath = ''.'' then 0
          else int (length (filter (\<lambda>c. c = Separator) relPath)) + 1)"

definition extractFolderInfoFromPath :: "path \<Rightarrow> path \<Rightarrow> FolderInfo" where
  "extractFolderInfoFromPath p rootPath =
     \<lparr>Path = p, Name = Base p, Depth = calculateDepth p rootPath, Parent = Dir p\<rparr>"

record collected =
  folders :: "FolderInfo list"
  collectErrors :: "error list"

definition processWalkPath ::
  "FileSystemWalker \<Rightarrow> path \<Rightarrow> bool \<Rightarrow> error option \<Rightarrow> path \<Rightarrow> collected
    \<Rightarrow> error option \<times> collected" where
  "processWalkPath fsw p infoIsDir err rootPath st =
     (case err of
        Some e \<Rightarrow>
          if skipInaccessible fsw \<and> IsPermission e then
            (Some SkipDir,
             st\<lparr>collectErrors := collectErrors st @ [Errorf (''permission denied: '' @ p)]\<rparr>)
          else if p \<noteq> rootPath then
            (Some SkipDir,
             st\<lparr>folders := folders st @ [extractFolderInfoFromPath p rootPath],
                collectErrors := collectErrors st @ [ErrorfW (''error accessing '' @ p @ '': '') e]\<rparr>)
          else (Some SkipDir, st)
      | None \<Rightarrow>
          if infoIsDir \<and> p \<noteq> rootPath then
            (let depth = calculateDepth p rootPath
             in if maxDepth fsw > 0 \<and> depth > maxDepth fsw then (Some SkipDir, st)
                else (None,
                      st\<lparr>folders := folders st @
                           [\<lparr>Path = p, Name = Base p, Depth = depth, Parent = Dir p\<rparr>]\<rparr>))
          else (None, st))"






section \<open>The service (internal/service)\<close>

text \<open>
  The service holds its collaborators as interface values: they are parameters. The
  walker answers with an error or the list of folders, the sanitizer maps a name to a
  name, the processor answers with Go's pair and the state it leaves. The calls to
  the reporter are kept in order. The reading of the clock is a parameter.
\<close>

datatype report =
    ReportProgress int int string
  | ReportError error
  | ReportComplete ProcessingSummary

datatype panic = NilPointerDereference

record 'w counters =
  processedCount :: int
  renamedCount :: int
  errorCount :: int
  skippedCount :: int
  reports :: "report list"
  world :: 'w


text \<open>One round of the loop over the folders: \<open>i\<close> is the index of the folder.\<close>

definition processFolder ::
  "(string \<Rightarrow> string) \<Rightarrow> ('w \<Rightarrow> FolderInfo \<Rightarrow> string \<Rightarrow> bool \<Rightarrow> (RenameResult option \<times> error option) \<times> 'w)
    \<Rightarrow> bool \<Rightarrow> int \<Rightarrow> int \<Rightarrow> FolderInfo \<Rightarrow> 'w counters \<Rightarrow> panic + 'w counters" where
  "processFolder sanitizer processor dryRun totalFolders i folder st =
     (let st1 = st\<lparr>reports := reports st @
                  [ReportProgress (i + 1) totalFolders (''Processing: '' @ Name folder)]\<rparr>;
          sanitizedName = sanitizer (Name folder)
      in case processor (world st1) folder sanitizedName dryRun of
           ((result, err), w') \<Rightarrow>
             (let st2 = st1\<lparr>processedCount := processedCount st1 + 1, world := w'\<rparr>
              in case err of
                   Some e \<Rightarrow>
                     Inr (st2\<lparr>reports := reports st2 @
                                [ReportError (ErrorfW (''failed to process folder '' @ Path folder @ '': '') e)],
                              errorCount := errorCount st2 + 1\<rparr>)
                 | None \<Rightarrow>
                     (case result of
                        None \<Rightarrow> Inl NilPointerDereference
                      | Some res \<Rightarrow>
                          (case Error res of
                             Some e \<Rightarrow>
                               Inr (st2\<lparr>reports := reports st2 @
                                          [ReportError (ErrorfW (''rename error for '' @ Path folder @ '': '') e)],
                                        errorCount := errorCount st2 + 1\<rparr>)
                           | None \<Rightarrow>
                               if WasRenamed res \<and> Success res
                               then Inr (st2\<lparr>renamedCount := renamedCount st2 + 1\<rparr>)
                               else if \<not> WasRenamed res
                               then Inr (st2\<lparr>skippedCount := skippedCount st2 + 1\<rparr>)
                               else Inr st2))))"

fun processFolders ::
  "(string \<Rightarrow> string) \<Rightarrow> ('w \<Rightarrow> FolderInfo \<Rightarrow> string \<Rightarrow> bool \<Rightarrow> (RenameResult option \<times> error option) \<times> 'w)
    \<Rightarrow> bool \<Rightarrow> int \<Rightarrow> int \<Rightarrow> FolderInfo list \<Rightarrow> 'w counters \<Rightarrow> panic + 'w counters" where
  "processFolders sanitizer processor dryRun totalFolders i [] st = Inr st"
| "processFolders sanitizer processor dryRun totalFolders i (folder # rest) st =
     (case processFolder sanitizer processor dryRun totalFolders i folder st of
        Inl p \<Rightarrow> Inl p
      | Inr st1 \<Rightarrow> processFolders sanitizer processor dryRun totalFolders (i + 1) rest st1)"


subsection \<open>The program as main.go assembles it\<close>

text \<open>The processor as the service calls it.\<close>

definition fsProcessor ::
  "'w os \<Rightarrow> FileSystemProcessor
    \<Rightarrow> 'w \<Rightarrow> FolderInfo \<Rightarrow> string \<Rightarrow> bool \<Rightarrow> (RenameResult option \<times> error option) \<times> 'w" where
  "fsProcessor sys fsp w folder newName dryRun =
     (case ProcessRename sys fsp folder newName dryRun w of (r, ops, w') \<Rightarrow> (r, w'))"

text \<open>\<open>SanitizeName\<close> on a Go string all of whose bytes are below 128: its runes are its
  bytes.\<close>

definition SanitizeString :: "unicode \<Rightarrow> string \<Rightarrow> string" where
  "SanitizeString U name = map char_of (SanitizeName U (map of_char name))"


section \<open>Vocabulary of the properties\<close>

text \<open>What the sanitizer lets through: the bytes from the space to DEL that are not
  forbidden.\<close>

definition validRune :: "rune \<Rightarrow> bool" where
  "validRune r = (0x20 \<le> r \<and> r \<le> 0x7F \<and> \<not> containsRune invalidChars r)"

text \<open>The sanitizer's own test for a reserved name: the upper-cased name is a key of
  \<open>reservedNames\<close>.\<close>

definition isReserved :: "unicode \<Rightarrow> rune list \<Rightarrow> bool" where
  "isReserved U s = (ToUpperString U s \<in> set reservedNames)"

definition endsWithSpaceOrPeriod :: "rune list \<Rightarrow> bool" where
  "endsWithSpaceOrPeriod s = (s \<noteq> [] \<and> (last s = 0x20 \<or> last s = 0x2E))"

text \<open>Printable ASCII: from the space to the tilde.\<close>

definition printableASCII :: "rune \<Rightarrow> bool" where
  "printableASCII r = (0x20 \<le> r \<and> r \<le> 0x7E)"


text \<open>The extension in the words of the specification: the substring from the last
  dot onward, if there is a dot.\<close>

definition fromLastDot :: "string \<Rightarrow> string" where
  "fromLastDot name =
     (if CHR ''.'' \<in> set name
      then CHR ''.'' # rev (takeWhile (\<lambda>c. c \<noteq> CHR ''.'') (rev name))
      else [])"

text \<open>A path is a strict ancestor of another: the other one continues it after a
  separator.\<close>

definition strictAncestor :: "path \<Rightarrow> path \<Rightarrow> bool" where
  "strictAncestor x y = strict_prefix (x @ [Separator]) y"












section \<open>Properties of the sanitizer\<close>

subsection \<open>Rune by rune\<close>

lemma validRune_iff:
  "validRune r \<longleftrightarrow> 0x20 \<le> r \<and> r \<le> 0x7F \<and> r \<notin> {0x3C, 0x3E, 0x3A, 0x22, 0x7C, 0x3F, 0x2A, 0x5C, 0x2F}"
  by (simp add: validRune_def invalidChars_def) 

lemma replacements_all_valid: "\<forall>p \<in> set replacements. validRune (snd p)"
  by (simp add: replacements_def validRune_iff)

lemma replacements_valid: "(k, v) \<in> set replacements \<Longrightarrow> validRune v"
  using replacements_all_valid by force

lemma unicodeLatinToASCII_valid:
  "unicodeLatinToASCII r \<noteq> 0 \<Longrightarrow> validRune (unicodeLatinToASCII r)"
  by (auto simp: unicodeLatinToASCII_def split: option.splits
      dest!: map_of_SomeD replacements_valid)


lemma containsRune_iff: "containsRune xs r \<longleftrightarrow> r \<in> set xs"
  by (induction xs) auto

lemma unicodeExtendedLatinToASCII_valid: "validRune (unicodeExtendedLatinToASCII U r)"
  by (simp add: unicodeExtendedLatinToASCII_def validRune_iff)

lemma unicodeToASCII_valid:
  assumes "unicodeToASCII U r \<noteq> 0"
  shows "validRune (unicodeToASCII U r)"
proof -
  have "unicodeToASCII U r = unicodeLatinToASCII r
      \<or> unicodeToASCII U r = unicodeExtendedLatinToASCII U r
      \<or> unicodeToASCII U r \<in> {0x41, 0x61, 0x30, 0x20, 0x5F, 0}"
    by (simp add: unicodeToASCII_def)
  then consider (latin) "unicodeToASCII U r = unicodeLatinToASCII r"
    | (ext) "unicodeToASCII U r = unicodeExtendedLatinToASCII U r"
    | (other) "unicodeToASCII U r \<in> {0x41, 0x61, 0x30, 0x20, 0x5F, 0}"
    by blast
  then show ?thesis
  proof cases
    case latin
    then show ?thesis using assms unicodeLatinToASCII_valid [of r] by simp
  next
    case ext
    then show ?thesis using unicodeExtendedLatinToASCII_valid [of U r] by simp
  next
    case other
    then show ?thesis using assms by (auto simp: validRune_iff)
  qed
qed

lemma validRune_underscore: "validRune 0x5F"
  by (simp add: validRune_iff)

lemma processCharacters_valid:
  "\<forall>r \<in> set name. 0x20 \<le> r \<Longrightarrow> \<forall>r \<in> set (processCharacters U name). validRune r"
proof (induction name)
  case Nil
  then show ?case by simp
next
  case (Cons r rest)
  then have rest: "\<forall>r \<in> set (processCharacters U rest). validRune r" by simp
  have r: "0x20 \<le> r" using Cons.prems by simp
  show ?case
  proof (cases "containsRune invalidChars r")
    case True
    then show ?thesis using rest validRune_underscore by simp
  next
    case False
    show ?thesis
    proof (cases "r > 127")
      case True
      then show ?thesis
        using False rest validRune_underscore unicodeToASCII_valid [of U r]
        by (simp add: Let_def)
    next
      case False
      then have "validRune r" using r \<open>\<not> containsRune invalidChars r\<close>
        by (simp add: validRune_def)
      then show ?thesis using False \<open>\<not> containsRune invalidChars r\<close> rest by simp
    qed
  qed
qed

lemma removeControlChars_ge: "\<forall>r \<in> set (removeControlChars name). 0x20 \<le> r"
  by (auto simp: removeControlChars_def)

lemma processCharacters_id:
  "\<forall>r \<in> set name. validRune r \<Longrightarrow> processCharacters U name = name"
  by (induction name) (simp_all add: validRune_def)

lemma removeControlChars_id:
  "\<forall>r \<in> set name. validRune r \<Longrightarrow> removeControlChars name = name"
  by (auto simp: removeControlChars_def validRune_def filter_id_conv)

lemma isSpace_space: "isSpace U 0x20"
  by (simp add: isSpace_def)

lemma isSpace_valid: "validRune r \<Longrightarrow> isSpace U r \<longleftrightarrow> r = 0x20"
  by (auto simp: validRune_def isSpace_def)



lemma trimEnd_set: "set (rev (dropWhile P (rev s))) \<subseteq> set s"
  by (auto dest: set_dropWhileD)

lemma trimEnd_last:
  assumes "rev (dropWhile P (rev s)) \<noteq> []"
  shows "\<not> P (last (rev (dropWhile P (rev s))))"
proof -
  have "dropWhile P (rev s) \<noteq> []" using assms by simp
  then have "\<not> P (hd (dropWhile P (rev s)))" by (rule hd_dropWhile)
  then show ?thesis by (simp add: last_rev)
qed

lemma trimEnd_id:
  assumes "s \<noteq> []" and "\<not> P (last s)"
  shows "rev (dropWhile P (rev s)) = s"
proof -
  have "\<not> P (hd (rev s))" using assms by (simp add: hd_rev)
  then have "dropWhile P (rev s) = rev s" by (simp add: dropWhile_eq_self_iff)
  then show ?thesis by simp
qed

lemma trimEnd_prefix: "\<exists>t. s = rev (dropWhile P (rev s)) @ t"
proof -
  have "rev (takeWhile P (rev s) @ dropWhile P (rev s))
      = rev (dropWhile P (rev s)) @ rev (takeWhile P (rev s))"
    by (rule rev_append)
  moreover have "takeWhile P (rev s) @ dropWhile P (rev s) = rev s"
    by (rule takeWhile_dropWhile_id)
  ultimately have "rev (rev s) = rev (dropWhile P (rev s)) @ rev (takeWhile P (rev s))"
    by (simp only:)
  then have "s = rev (dropWhile P (rev s)) @ rev (takeWhile P (rev s))"
    by (simp only: rev_rev_ident)
  then show ?thesis by (rule exI)
qed

lemma trimEnd_hd:
  assumes "rev (dropWhile P (rev s)) \<noteq> []"
  shows "hd (rev (dropWhile P (rev s))) = hd s"
proof -
  obtain t where "s = rev (dropWhile P (rev s)) @ t" using trimEnd_prefix by blast
  then have "hd s = hd (rev (dropWhile P (rev s)) @ t)" by simp
  also have "\<dots> = hd (rev (dropWhile P (rev s)))" using assms by (rule hd_append2)
  finally show ?thesis by simp
qed

lemma TrimSpace_Nil: "TrimSpace U [] = []"
  by (simp add: TrimSpace_def)

lemma set_TrimSpace: "set (TrimSpace U s) \<subseteq> set s"
proof -
  have "set (TrimSpace U s) \<subseteq> set (dropWhile (isSpace U) s)"
    unfolding TrimSpace_def by (rule trimEnd_set)
  also have "\<dots> \<subseteq> set s" by (auto dest: set_dropWhileD)
  finally show ?thesis .
qed

lemma set_TrimRight: "set (TrimRight s cutset) \<subseteq> set s"
  unfolding TrimRight_def by (rule trimEnd_set)

lemma TrimSpace_hd:
  assumes "TrimSpace U s \<noteq> []"
  shows "\<not> isSpace U (hd (TrimSpace U s))"
proof -
  let ?d = "dropWhile (isSpace U) s"
  have ne: "rev (dropWhile (isSpace U) (rev ?d)) \<noteq> []" using assms by (simp add: TrimSpace_def)
  have d: "?d \<noteq> []"
  proof
    assume e: "?d = []"
    have "rev (dropWhile (isSpace U) (rev ?d)) = []" unfolding e by simp
    with ne show False by (rule notE)
  qed
  have "hd (TrimSpace U s) = hd ?d" unfolding TrimSpace_def using ne by (rule trimEnd_hd)
  then show ?thesis using hd_dropWhile [OF d] by simp
qed

lemma TrimRight_last:
  assumes "TrimRight s cutset \<noteq> []"
  shows "last (TrimRight s cutset) \<notin> set cutset"
  using assms trimEnd_last [of "\<lambda>r. r \<in> set cutset" s] by (simp add: TrimRight_def)

lemma TrimRight_hd:
  "TrimRight s cutset \<noteq> [] \<Longrightarrow> hd (TrimRight s cutset) = hd s"
  unfolding TrimRight_def by (rule trimEnd_hd)

lemma TrimSpace_id:
  assumes "s \<noteq> []" and "\<not> isSpace U (hd s)" and "\<not> isSpace U (last s)"
  shows "TrimSpace U s = s"
proof -
  have "dropWhile (isSpace U) s = s" using assms by (simp add: dropWhile_eq_self_iff)
  then show ?thesis using assms by (simp add: TrimSpace_def trimEnd_id)
qed

lemma TrimRight_id:
  "s \<noteq> [] \<Longrightarrow> last s \<notin> set cutset \<Longrightarrow> TrimRight s cutset = s"
  unfolding TrimRight_def by (rule trimEnd_id)

subsection \<open>The Windows rules\<close>

lemma runes_simps:
  "runes [] = []" "runes (c # cs) = of_char c # runes cs"
  by (simp_all add: runes_def)

lemma placeholder_eq: "placeholder = [0x5F, 0x65, 0x6D, 0x70, 0x74, 0x79, 0x5F]"
  by (simp add: placeholder_def runes_def)

lemma reservedNames_length: "n \<in> set reservedNames \<Longrightarrow> length n \<le> 4"
  by (auto simp: reservedNames_def runes_def)

lemma reservedNames_last: "n \<in> set reservedNames \<Longrightarrow> last n \<noteq> 0x5F \<and> n \<noteq> []"
  by (auto simp: reservedNames_def runes_def)

lemma applyWindowsRules_cases:
  obtains
    (empty) "applyWindowsRules U xs = placeholder"
  | (kept) name2 where
      "TrimSpace U xs \<noteq> []" "name2 = TrimRight (TrimSpace U xs) [0x2E, 0x20]" "name2 \<noteq> []"
      "\<not> isReserved U name2" "length name2 \<le> 255" "applyWindowsRules U xs = name2"
  | (suffixed) name2 where
      "TrimSpace U xs \<noteq> []" "name2 = TrimRight (TrimSpace U xs) [0x2E, 0x20]" "name2 \<noteq> []"
      "isReserved U name2" "applyWindowsRules U xs = name2 @ [0x5F]"
  | (truncated) name2 where
      "TrimSpace U xs \<noteq> []" "name2 = TrimRight (TrimSpace U xs) [0x2E, 0x20]" "name2 \<noteq> []"
      "\<not> isReserved U name2" "length name2 > 255"
      "applyWindowsRules U xs = take 252 name2 @ [0x2E, 0x2E, 0x2E]"
proof -
  let ?n1 = "TrimSpace U xs"
  let ?n2 = "TrimRight ?n1 [0x2E, 0x20]"
  show thesis
  proof (cases "?n1 = [] \<or> ?n2 = []")
    case True
    then have "applyWindowsRules U xs = placeholder"
      by (auto simp: applyWindowsRules_def Let_def runes_simps)
    then show thesis by (rule empty)
  next
    case ne: False
    show thesis
    proof (cases "isReserved U ?n2")
      case True
      then have "length (ToUpperString U ?n2) \<le> 4"
        using reservedNames_length by (simp add: isReserved_def)
      then have len: "length ?n2 \<le> 4" by (simp add: ToUpperString_def)
      have "applyWindowsRules U xs = placeholder \<or> applyWindowsRules U xs = ?n2 @ [0x5F]"
        using ne True len
        by (simp add: applyWindowsRules_def Let_def runes_simps isReserved_def maxNameLength_def)
      then show thesis using ne True empty suffixed [of ?n2] by blast
    next
      case False
      show thesis
      proof (cases "length ?n2 > 255")
        case True
        have "applyWindowsRules U xs = placeholder
            \<or> applyWindowsRules U xs = take 252 ?n2 @ [0x2E, 0x2E, 0x2E]"
          using ne False True
          by (simp add: applyWindowsRules_def Let_def runes_simps isReserved_def maxNameLength_def)
        then show thesis using ne False True empty truncated [of ?n2] by blast
      next
        case short: False
        have "applyWindowsRules U xs = placeholder \<or> applyWindowsRules U xs = ?n2"
          using ne False short
          by (simp add: applyWindowsRules_def Let_def runes_simps isReserved_def maxNameLength_def)
        then show thesis using ne False short empty kept [of ?n2] by auto
      qed
    qed
  qed
qed


lemma toUpperRune_underscore: "toUpperRune U 0x5F = 0x5F"
  by (simp add: toUpperRune_def)

lemma placeholder_not_reserved: "\<not> isReserved U placeholder"
proof
  assume "isReserved U placeholder"
  then have "length (ToUpperString U placeholder) \<le> 4"
    using reservedNames_length by (simp add: isReserved_def)
  then show False by (simp add: ToUpperString_def placeholder_eq)
qed

lemma applyWindowsRules_not_reserved: "\<not> isReserved U (applyWindowsRules U xs)"
proof (cases U xs rule: applyWindowsRules_cases)
  case empty
  then show ?thesis using placeholder_not_reserved by simp
next
  case (kept name2)
  then show ?thesis by simp
next
  case (suffixed name2)
  have "last (ToUpperString U (name2 @ [0x5F])) = 0x5F"
    by (simp add: ToUpperString_def toUpperRune_underscore)
  then have "ToUpperString U (name2 @ [0x5F]) \<notin> set reservedNames"
    using reservedNames_last by blast
  then show ?thesis using suffixed by (simp add: isReserved_def)
next
  case (truncated name2)
  have "length (ToUpperString U (take 252 name2 @ [0x2E, 0x2E, 0x2E])) = 255"
    using truncated by (simp add: ToUpperString_def)
  then have "ToUpperString U (take 252 name2 @ [0x2E, 0x2E, 0x2E]) \<notin> set reservedNames"
    using reservedNames_length by fastforce
  then show ?thesis using truncated by (simp add: isReserved_def)
qed

lemma applyWindowsRules_nonempty: "applyWindowsRules U xs \<noteq> []"
  by (cases U xs rule: applyWindowsRules_cases) (simp_all add: placeholder_eq)

lemma applyWindowsRules_length: "length (applyWindowsRules U xs) \<le> 255"
proof (cases U xs rule: applyWindowsRules_cases)
  case (suffixed name2)
  then have "length (ToUpperString U name2) \<le> 4"
    using reservedNames_length by (simp add: isReserved_def)
  then show ?thesis using suffixed by (simp add: ToUpperString_def)
qed (simp_all add: placeholder_eq)

lemma applyWindowsRules_trailing:
  "\<not> endsWithSpaceOrPeriod (applyWindowsRules U xs)
    \<or> (length (applyWindowsRules U xs) = 255
        \<and> drop 252 (applyWindowsRules U xs) = [0x2E, 0x2E, 0x2E])"
proof (cases U xs rule: applyWindowsRules_cases)
  case empty
  then show ?thesis by (simp add: endsWithSpaceOrPeriod_def placeholder_eq)
next
  case (kept name2)
  then have "last name2 \<notin> set [0x2E, 0x20]" using TrimRight_last by blast
  then show ?thesis using kept by (simp add: endsWithSpaceOrPeriod_def)
next
  case (suffixed name2)
  then show ?thesis by (simp add: endsWithSpaceOrPeriod_def)
next
  case (truncated name2)
  then show ?thesis by simp
qed

lemma applyWindowsRules_set:
  "set (applyWindowsRules U xs) \<subseteq> set xs \<union> set placeholder \<union> {0x5F, 0x2E}"
proof -
  have sub: "set (TrimRight (TrimSpace U xs) [0x2E, 0x20]) \<subseteq> set xs"
    using set_TrimRight set_TrimSpace by blast
  show ?thesis
  proof (cases U xs rule: applyWindowsRules_cases)
    case empty
    then show ?thesis by auto
  next
    case (kept name2)
    then show ?thesis using sub by auto
  next
    case (suffixed name2)
    then show ?thesis using sub by auto
  next
    case (truncated name2)
    have "set (take 252 name2) \<subseteq> set name2" by (rule set_take_subset)
    then show ?thesis using truncated sub by auto
  qed
qed

lemma applyWindowsRules_hd: "\<not> isSpace U (hd (applyWindowsRules U xs))"
proof -
  have key: "\<not> isSpace U (hd name2)"
    if "TrimSpace U xs \<noteq> []" "name2 = TrimRight (TrimSpace U xs) [0x2E, 0x20]" "name2 \<noteq> []"
    for name2
    using that TrimRight_hd [of "TrimSpace U xs" "[0x2E, 0x20]"] TrimSpace_hd [of U xs] by simp
  show ?thesis
  proof (cases U xs rule: applyWindowsRules_cases)
    case empty
    then show ?thesis by (simp add: placeholder_eq isSpace_def)
  next
    case (kept name2)
    then show ?thesis using key by simp
  next
    case (suffixed name2)
    then show ?thesis using key [of name2] by simp
  next
    case (truncated name2)
    then have "hd (take 252 name2 @ [0x2E, 0x2E, 0x2E]) = hd name2"
      by (cases name2) simp_all
    then show ?thesis using truncated key [of name2] by simp
  qed
qed

lemma validRune_placeholder: "\<forall>r \<in> set placeholder. validRune r"
  by (simp add: placeholder_eq validRune_iff)

lemma validRune_period: "validRune 0x2E"
  by (simp add: validRune_iff)

lemma applyWindowsRules_valid:
  assumes "\<forall>r \<in> set xs. validRune r"
  shows "\<forall>r \<in> set (applyWindowsRules U xs). validRune r"
proof
  fix r assume "r \<in> set (applyWindowsRules U xs)"
  then consider "r \<in> set xs" | "r \<in> set placeholder" | "r = 0x5F" | "r = 0x2E"
    using applyWindowsRules_set [of U xs] by blast
  then show "validRune r"
  proof cases
    case 1
    then show ?thesis using assms by blast
  next
    case 2
    then show ?thesis using validRune_placeholder by blast
  next
    case 3
    then show ?thesis using validRune_underscore by simp
  next
    case 4
    then show ?thesis using validRune_period by simp
  qed
qed

lemma applyWindowsRules_fixed:
  assumes "xs \<noteq> []" and "\<forall>r \<in> set xs. validRune r"
    and "hd xs \<noteq> 0x20" and "last xs \<noteq> 0x20" and "last xs \<noteq> 0x2E"
    and "\<not> isReserved U xs" and "length xs \<le> 255"
  shows "applyWindowsRules U xs = xs"
proof -
  have "validRune (hd xs)" "validRune (last xs)" using assms(1,2) by simp_all
  then have "\<not> isSpace U (hd xs)" "\<not> isSpace U (last xs)"
    using assms(3,4) by (simp_all add: isSpace_valid)
  then have t1: "TrimSpace U xs = xs" using assms(1) by (simp add: TrimSpace_id)
  have t2: "TrimRight xs [0x2E, 0x20] = xs" using assms(1,4,5) by (simp add: TrimRight_id)
  show ?thesis
    using assms(1,6,7) t1 t2
    by (simp add: applyWindowsRules_def Let_def runes_simps isReserved_def maxNameLength_def)
qed

subsection \<open>The entry point\<close>

lemma SanitizeName_valid: "\<forall>r \<in> set (SanitizeName U s). validRune r"
proof (cases "s = []")
  case True
  then show ?thesis using validRune_placeholder by (simp add: SanitizeName_def)
next
  case False
  have "\<forall>r \<in> set (processCharacters U (removeControlChars s)). validRune r"
    using removeControlChars_ge by (rule processCharacters_valid)
  then have "\<forall>r \<in> set (applyWindowsRules U (processCharacters U (removeControlChars s))). validRune r"
    by (rule applyWindowsRules_valid)
  then show ?thesis using False by (simp add: SanitizeName_def)
qed

lemma SanitizeName_eq:
  "SanitizeName U s = placeholder
    \<or> SanitizeName U s = applyWindowsRules U (processCharacters U (removeControlChars s))"
  by (simp add: SanitizeName_def)

lemma placeholder_facts:
  "last placeholder = 0x5F" "hd placeholder = 0x5F" "length placeholder = 7" "placeholder \<noteq> []"
  by (simp_all add: placeholder_eq)

lemma dots_eq: "runes ''...'' = [0x2E, 0x2E, 0x2E]"
  by (simp add: runes_simps)

lemma SanitizeName_trailing:
  "\<not> endsWithSpaceOrPeriod (SanitizeName U s)
    \<or> length (SanitizeName U s) = 255 \<and> drop 252 (SanitizeName U s) = runes ''...''"
proof (cases "SanitizeName U s = placeholder")
  case True
  then show ?thesis by (simp add: endsWithSpaceOrPeriod_def placeholder_facts)
next
  case False
  then have "SanitizeName U s = applyWindowsRules U (processCharacters U (removeControlChars s))"
    using SanitizeName_eq [of U s] by simp
  then show ?thesis
    using applyWindowsRules_trailing [of U "processCharacters U (removeControlChars s)"]
    by (simp only: dots_eq)
qed

lemma SanitizeName_length: "length (SanitizeName U s) \<le> 255"
  using SanitizeName_eq [of U s] applyWindowsRules_length [of U "processCharacters U (removeControlChars s)"]
  by (auto simp: placeholder_facts)

lemma SanitizeName_nonempty: "SanitizeName U s \<noteq> []"
  using SanitizeName_eq [of U s] applyWindowsRules_nonempty [of U "processCharacters U (removeControlChars s)"]
  by (auto simp: placeholder_facts)

lemma SanitizeName_not_reserved: "\<not> isReserved U (SanitizeName U s)"
  using SanitizeName_eq [of U s]
    applyWindowsRules_not_reserved [of U "processCharacters U (removeControlChars s)"]
    placeholder_not_reserved [of U]
  by auto

lemma SanitizeName_hd: "hd (SanitizeName U s) \<noteq> 0x20"
proof
  assume h: "hd (SanitizeName U s) = 0x20"
  then have "SanitizeName U s \<noteq> placeholder" by (auto simp: placeholder_facts)
  then have "SanitizeName U s = applyWindowsRules U (processCharacters U (removeControlChars s))"
    using SanitizeName_eq [of U s] by simp
  then have "\<not> isSpace U (hd (SanitizeName U s))"
    using applyWindowsRules_hd [of U "processCharacters U (removeControlChars s)"] by simp
  then show False using h isSpace_space by simp
qed

lemma SanitizeName_fixed:
  assumes "xs \<noteq> []" and "\<forall>r \<in> set xs. validRune r"
    and "hd xs \<noteq> 0x20" and "last xs \<noteq> 0x20" and "last xs \<noteq> 0x2E"
    and "\<not> isReserved U xs" and "length xs \<le> 255"
  shows "SanitizeName U xs = xs"
proof -
  have "removeControlChars xs = xs" using assms(2) by (rule removeControlChars_id)
  moreover have "processCharacters U xs = xs" using assms(2) by (rule processCharacters_id)
  moreover have "applyWindowsRules U xs = xs" using assms by (rule applyWindowsRules_fixed)
  ultimately show ?thesis using assms(1) by (simp add: SanitizeName_def)
qed

lemma SanitizeName_last_dot:
  assumes "last (SanitizeName U s) = 0x2E"
  shows "length (SanitizeName U s) = 255"
  using assms SanitizeName_trailing [of U s] SanitizeName_nonempty [of U s]
  by (auto simp: endsWithSpaceOrPeriod_def)

lemma SanitizeName_last_not_space: "last (SanitizeName U s) \<noteq> 0x20"
proof
  assume h: "last (SanitizeName U s) = 0x20"
  then have "endsWithSpaceOrPeriod (SanitizeName U s)"
    using SanitizeName_nonempty [of U s] by (simp add: endsWithSpaceOrPeriod_def)
  then have "drop 252 (SanitizeName U s) = [0x2E, 0x2E, 0x2E]" and l: "length (SanitizeName U s) = 255"
    using SanitizeName_trailing [of U s] by (simp_all add: dots_eq)
  then have "last (drop 252 (SanitizeName U s)) = 0x2E" by simp
  then have "last (SanitizeName U s) = 0x2E" using l by (simp add: last_drop)
  then show False using h by simp
qed

lemma trimEnd_length: "length (rev (dropWhile P (rev s))) \<le> length s"
  using length_dropWhile_le [of P "rev s"] by simp

lemma TrimRight_shorter:
  assumes "s \<noteq> []" and "last s \<in> set cutset"
  shows "length (TrimRight s cutset) < length s"
proof -
  let ?P = "\<lambda>r. r \<in> set cutset"
  have "rev s \<noteq> []" using assms by simp
  then obtain x xs where rs: "rev s = x # xs" by (cases "rev s") auto
  have "hd (rev s) = last s" by (rule hd_rev)
  then have px: "?P x" using assms(2) by (simp add: rs)
  have "dropWhile ?P (x # xs) = dropWhile ?P xs" using px by simp
  then have "dropWhile ?P (rev s) = dropWhile ?P xs" by (simp only: rs)
  then have "length (TrimRight s cutset) = length (dropWhile ?P xs)"
    by (simp add: TrimRight_def)
  also have "\<dots> \<le> length xs" by (rule length_dropWhile_le)
  also have "\<dots> < length (rev s)" by (simp add: rs)
  finally show ?thesis by simp
qed

lemma applyWindowsRules_dot_shorter:
  assumes "xs \<noteq> []" and "last xs = 0x2E" and "\<not> isSpace U (hd xs)" and "length xs \<le> 255"
  shows "length (applyWindowsRules U xs) < 255"
proof -
  have ns: "\<not> isSpace U (last xs)" using assms(2) by (simp add: isSpace_def)
  have t1: "TrimSpace U xs = xs" using assms(1,3) ns by (rule TrimSpace_id)
  have "length (TrimRight xs [0x2E, 0x20]) < length xs"
    using assms(1,2) by (simp add: TrimRight_shorter)
  then have short: "length (TrimRight (TrimSpace U xs) [0x2E, 0x20]) < 255"
    using t1 assms(4) by simp
  show ?thesis
  proof (cases U xs rule: applyWindowsRules_cases)
    case empty
    then show ?thesis by (simp add: placeholder_facts)
  next
    case (kept name2)
    then show ?thesis using short by simp
  next
    case (suffixed name2)
    then have "length (ToUpperString U name2) \<le> 4"
      using reservedNames_length by (simp add: isReserved_def)
    then show ?thesis using suffixed by (simp add: ToUpperString_def)
  next
    case (truncated name2)
    then show ?thesis using short by simp
  qed
qed

lemma SanitizeName_on_valid:
  assumes "xs \<noteq> []" and "\<forall>r \<in> set xs. validRune r"
  shows "SanitizeName U xs = applyWindowsRules U xs"
proof -
  have "removeControlChars xs = xs" using assms(2) by (rule removeControlChars_id)
  moreover have "processCharacters U xs = xs" using assms(2) by (rule processCharacters_id)
  ultimately show ?thesis using assms(1) by (simp add: SanitizeName_def)
qed

lemma SanitizeName_truncated_not_stable:
  assumes "last (SanitizeName U s) = 0x2E"
  shows "SanitizeName U (SanitizeName U s) \<noteq> SanitizeName U s"
proof -
  let ?out = "SanitizeName U s"
  have len: "length ?out = 255" using assms by (rule SanitizeName_last_dot)
  have ne: "?out \<noteq> []" by (rule SanitizeName_nonempty)
  have v: "\<forall>r \<in> set ?out. validRune r" by (rule SanitizeName_valid)
  have "hd ?out \<in> set ?out" using ne by (rule hd_in_set)
  then have "validRune (hd ?out)" using v by blast
  then have "isSpace U (hd ?out) \<longleftrightarrow> hd ?out = 0x20" by (rule isSpace_valid)
  then have h: "\<not> isSpace U (hd ?out)" using SanitizeName_hd [of U s] by blast
  have le: "length ?out \<le> 255" by (rule SanitizeName_length)
  have eq: "SanitizeName U ?out = applyWindowsRules U ?out"
    using ne v by (rule SanitizeName_on_valid)
  have "length (applyWindowsRules U ?out) < 255"
    using ne assms h le by (rule applyWindowsRules_dot_shorter)
  then have "length (SanitizeName U ?out) \<noteq> length ?out"
    unfolding eq len by simp
  then show ?thesis by metis
qed

subsection \<open>Literal cases\<close>

lemmas sanitize_eval =
  SanitizeName_def runes_def removeControlChars_def invalidChars_def applyWindowsRules_def
  TrimSpace_def TrimRight_def isSpace_def ToUpperString_def toUpperRune_def reservedNames_def
  maxNameLength_def placeholder_def unicodeToASCII_def unicodeLatinToASCII_def replacements_def

lemma applyWindowsRules_long:
  assumes "\<forall>r \<in> set xs. validRune r"
    and "hd xs \<noteq> 0x20" and "last xs \<noteq> 0x20" and "last xs \<noteq> 0x2E" and "length xs > 255"
  shows "applyWindowsRules U xs = take 252 xs @ runes ''...''"
proof -
  have ne: "xs \<noteq> []" using assms(5) by auto
  have "validRune (hd xs)" "validRune (last xs)" using ne assms(1) by simp_all
  then have "\<not> isSpace U (hd xs)" "\<not> isSpace U (last xs)"
    using assms(2,3) by (simp_all add: isSpace_valid)
  then have t1: "TrimSpace U xs = xs" using ne by (simp add: TrimSpace_id)
  have t2: "TrimRight xs [0x2E, 0x20] = xs" using ne assms(3,4) by (simp add: TrimRight_id)
  have "\<not> isReserved U xs"
  proof
    assume "isReserved U xs"
    then have "length (ToUpperString U xs) \<le> 4"
      using reservedNames_length by (simp add: isReserved_def)
    then show False using assms(5) by (simp add: ToUpperString_def)
  qed
  then have nr: "ToUpperString U xs \<notin> set reservedNames" by (simp add: isReserved_def)
  have t3: "TrimSpace U (take 252 xs @ [0x2E, 0x2E, 0x2E]) \<noteq> []"
  proof -
    have "hd (take 252 xs @ [0x2E, 0x2E, 0x2E]) = hd xs" using ne by (cases xs) simp_all
    then have "\<not> isSpace U (hd (take 252 xs @ [0x2E, 0x2E, 0x2E]))"
      using \<open>\<not> isSpace U (hd xs)\<close> by simp
    moreover have "\<not> isSpace U (last (take 252 xs @ [0x2E, 0x2E, 0x2E]))"
      by (simp add: isSpace_def)
    ultimately have "TrimSpace U (take 252 xs @ [0x2E, 0x2E, 0x2E]) = take 252 xs @ [0x2E, 0x2E, 0x2E]"
      by (intro TrimSpace_id) simp_all
    then show ?thesis by simp
  qed
  show ?thesis
    using ne assms(5) t1 t2 t3 nr
    by (simp add: applyWindowsRules_def Let_def runes_simps maxNameLength_def)
qed

lemma SanitizeName_300a:
  "SanitizeName U (replicate 300 0x61) = replicate 252 0x61 @ runes ''...''"
proof -
  let ?xs = "replicate 300 (0x61::nat)"
  have v: "\<forall>r \<in> set ?xs. validRune r" by (simp add: validRune_iff)
  have ne: "?xs \<noteq> []" by simp
  have "applyWindowsRules U ?xs = take 252 ?xs @ runes ''...''"
    using v by (rule applyWindowsRules_long) simp_all
  moreover have "take 252 ?xs = replicate 252 0x61" by simp
  ultimately show ?thesis using SanitizeName_on_valid [OF ne v, of U] by simp
qed

lemma SanitizeName_DEL: "SanitizeName U [0x7F] = [0x7F]"
  by (simp add: sanitize_eval)

lemma processCharacters_tables:
  "\<forall>r \<in> set s. r < 128 \<Longrightarrow> processCharacters U s = processCharacters U' s"
  by (induction s) simp_all

lemma isSpace_tables: "r < 128 \<Longrightarrow> isSpace U r = isSpace U' r"
  by (simp add: isSpace_def)

lemma TrimSpace_tables:
  assumes "\<forall>r \<in> set s. r < 128"
  shows "TrimSpace U s = TrimSpace U' s"
proof -
  have 1: "dropWhile (isSpace U) s = dropWhile (isSpace U') s"
    using assms by (intro dropWhile_cong) (simp_all add: isSpace_tables [of _ U U'])
  have "\<forall>r \<in> set (rev (dropWhile (isSpace U') s)). r < 128"
    using assms by (auto dest: set_dropWhileD)
  then have "dropWhile (isSpace U) (rev (dropWhile (isSpace U') s))
      = dropWhile (isSpace U') (rev (dropWhile (isSpace U') s))"
    by (intro dropWhile_cong) (simp_all add: isSpace_tables [of _ U U'])
  then show ?thesis by (simp add: TrimSpace_def 1)
qed

lemma ToUpperString_tables:
  "\<forall>r \<in> set s. r < 128 \<Longrightarrow> ToUpperString U s = ToUpperString U' s"
  by (simp add: ToUpperString_def toUpperRune_def)

lemma applyWindowsRules_tables:
  assumes "\<forall>r \<in> set xs. r < 128"
  shows "applyWindowsRules U xs = applyWindowsRules U' xs"
proof -
  let ?n1 = "TrimSpace U' xs"
  let ?n2 = "TrimRight ?n1 (runes ''. '')"
  let ?n3 = "if ToUpperString U' ?n2 \<in> set reservedNames then ?n2 @ runes ''_'' else ?n2"
  let ?n4 = "if length ?n3 > maxNameLength
             then take (maxNameLength - 3) ?n3 @ runes ''...'' else ?n3"
  have a1: "\<forall>r \<in> set ?n1. r < 128" using assms set_TrimSpace [of U' xs] by blast
  then have a2: "\<forall>r \<in> set ?n2. r < 128" using set_TrimRight [of ?n1] by blast
  then have a3: "\<forall>r \<in> set ?n3. r < 128" by (simp add: runes_simps)
  have "set (take (maxNameLength - 3) ?n3) \<subseteq> set ?n3" by (rule set_take_subset)
  then have "\<forall>r \<in> set (take (maxNameLength - 3) ?n3). r < 128" using a3 by blast
  then have a4: "\<forall>r \<in> set ?n4. r < 128" using a3 by (simp add: runes_simps)
  have e1: "TrimSpace U xs = ?n1" using assms by (rule TrimSpace_tables)
  have e2: "ToUpperString U ?n2 = ToUpperString U' ?n2" using a2 by (rule ToUpperString_tables)
  have e4: "TrimSpace U ?n4 = TrimSpace U' ?n4" using a4 by (rule TrimSpace_tables)
  show ?thesis
    unfolding applyWindowsRules_def Let_def e1 e2 e4 ..
qed

text \<open>On a name that is ASCII already the tables of package unicode are not
  consulted.\<close>

lemma SanitizeName_ascii_tables:
  assumes "\<forall>r \<in> set s. r < 128"
  shows "SanitizeName U s = SanitizeName U' s"
proof -
  have "\<forall>r \<in> set (removeControlChars s). r < 128"
    using assms by (simp add: removeControlChars_def)
  then have p: "processCharacters U (removeControlChars s) = processCharacters U' (removeControlChars s)"
    by (rule processCharacters_tables)
  have "\<forall>r \<in> set (processCharacters U' (removeControlChars s)). validRune r"
    using removeControlChars_ge by (rule processCharacters_valid)
  then have "\<forall>r \<in> set (processCharacters U' (removeControlChars s)). r < 128"
    by (auto simp: validRune_def)
  then have "applyWindowsRules U (processCharacters U' (removeControlChars s))
      = applyWindowsRules U' (processCharacters U' (removeControlChars s))"
    by (rule applyWindowsRules_tables)
  then show ?thesis by (simp add: SanitizeName_def p)
qed

text \<open>The older entry point computes the same function.\<close>

lemma TrimRight_placeholder: "TrimRight placeholder (runes ''. '') = placeholder"
  by (simp add: TrimRight_def placeholder_eq runes_simps)

lemma TrimSpace_placeholder: "TrimSpace U placeholder = placeholder"
  by (simp add: TrimSpace_def placeholder_eq isSpace_def)

lemma ToUpperString_placeholder: "ToUpperString U placeholder \<notin> set reservedNames"
  using placeholder_not_reserved [of U] by (simp add: isReserved_def)

lemma sanitizeFolderName_eq: "sanitizeFolderName U s = SanitizeName U s"
  by (simp add: sanitizeFolderName_def SanitizeName_def applyWindowsRules_def Let_def
      TrimRight_placeholder TrimSpace_placeholder ToUpperString_placeholder
      placeholder_facts maxNameLength_def)

text \<open>A sanitized name is one path element: it contains neither the slash nor the
  backslash.\<close>

lemma validRune_char:
  assumes "validRune r"
  shows "char_of r \<noteq> CHR ''/'' \<and> char_of r \<noteq> CHR 0x5C"
proof -
  have r: "r < 256" "r \<noteq> 0x2F" "r \<noteq> 0x5C" using assms by (auto simp: validRune_iff)
  have rt: "of_char (char_of r) = r" using r(1) by (simp add: of_char_of)
  have "char_of r \<noteq> CHR ''/''"
  proof
    assume "char_of r = CHR ''/''"
    then have "of_char (char_of r) = (of_char (CHR ''/'') :: nat)" by (rule arg_cong)
    then show False using rt r(2) by simp
  qed
  moreover have "char_of r \<noteq> CHR 0x5C"
  proof
    assume "char_of r = CHR 0x5C"
    then have "of_char (char_of r) = (of_char (CHR 0x5C) :: nat)" by (rule arg_cong)
    then show False using rt r(3) by simp
  qed
  ultimately show ?thesis by (rule conjI)
qed

lemma SanitizeString_no_separator:
  "CHR ''/'' \<notin> set (SanitizeString U name) \<and> CHR 0x5C \<notin> set (SanitizeString U name)"
proof -
  have "c \<noteq> CHR ''/'' \<and> c \<noteq> CHR 0x5C" if "c \<in> set (SanitizeString U name)" for c
  proof -
    from that obtain r where r: "r \<in> set (SanitizeName U (map of_char name))" and c: "c = char_of r"
      unfolding SanitizeString_def set_map by (rule imageE)
    have "validRune r" using SanitizeName_valid r by blast
    then show ?thesis unfolding c by (rule validRune_char)
  qed
  then show ?thesis by blast
qed

subsection \<open>The claims about the sanitizer\<close>

text \<open>
  Claim C1, as the code has it. For every input the output of \<open>SanitizeName\<close> contains
  no control character (0 to 31) and no forbidden character, is at most 255 characters
  long, is not empty and is not a reserved name in any letter case; it does not end
  in a space or a period unless the name was cut at the length limit, in which case
  it has exactly 255 characters and ends in the marker \<^verbatim>\<open>...\<close>; every output character
  is ASCII from the space (32) to DEL (127).
\<close>

theorem SanitizeName_output:
  "(\<forall>r \<in> set (SanitizeName U s). \<not> r \<le> 0x1F)
   \<and> (\<forall>r \<in> set (SanitizeName U s). \<not> containsRune invalidChars r)
   \<and> (\<not> endsWithSpaceOrPeriod (SanitizeName U s)
        \<or> length (SanitizeName U s) = 255 \<and> drop 252 (SanitizeName U s) = runes ''...'')
   \<and> length (SanitizeName U s) \<le> 255
   \<and> SanitizeName U s \<noteq> []
   \<and> \<not> isReserved U (SanitizeName U s)
   \<and> (\<forall>r \<in> set (SanitizeName U s). 0x20 \<le> r \<and> r \<le> 0x7F)"
proof -
  have v: "\<forall>r \<in> set (SanitizeName U s). validRune r" by (rule SanitizeName_valid)
  have 1: "\<forall>r \<in> set (SanitizeName U s). \<not> r \<le> 0x1F" using v by (auto simp: validRune_def)
  have 2: "\<forall>r \<in> set (SanitizeName U s). \<not> containsRune invalidChars r"
    using v by (auto simp: validRune_def)
  have 7: "\<forall>r \<in> set (SanitizeName U s). 0x20 \<le> r \<and> r \<le> 0x7F"
    using v by (auto simp: validRune_def)
  show ?thesis
    using 1 2 7 SanitizeName_trailing [of U s] SanitizeName_length [of U s]
      SanitizeName_nonempty [of U s] SanitizeName_not_reserved [of U s]
    by (intro conjI)
qed

text \<open>The theorem at the name \<^verbatim>\<open>bad<chars>\<close>.\<close>

theorem SanitizeName_output_witness:
  "list_all (\<lambda>r. \<not> r \<le> 0x1F \<and> \<not> containsRune invalidChars r \<and> 0x20 \<le> r \<and> r \<le> 0x7F)
     (SanitizeName ascii_unicode (runes ''bad<chars>''))
   \<and> length (SanitizeName ascii_unicode (runes ''bad<chars>'')) \<le> 255
   \<and> SanitizeName ascii_unicode (runes ''bad<chars>'') \<noteq> []
   \<and> \<not> isReserved ascii_unicode (SanitizeName ascii_unicode (runes ''bad<chars>''))"
  using SanitizeName_output [of ascii_unicode "runes ''bad<chars>''"]
  by (simp add: list_all_iff)

text \<open>
  Claim C1 as stated fails twice: 300 letters \<^verbatim>\<open>a\<close> are cut to 252 letters and the
  marker \<^verbatim>\<open>...\<close>, a name that ends in a period; and DEL (127), which is neither a
  control character from 0 to 31 nor above 127, passes through unchanged, and it is
  not printable.
\<close>

theorem SanitizeName_output_counterexample:
  "endsWithSpaceOrPeriod (SanitizeName ascii_unicode (replicate 300 0x61))
   \<and> \<not> list_all printableASCII (SanitizeName ascii_unicode [0x7F])"
  by (simp add: SanitizeName_300a SanitizeName_DEL endsWithSpaceOrPeriod_def printableASCII_def
      runes_simps)

text \<open>
  Claim C2, as the code has it. \<open>SanitizeName\<close> is idempotent on every input whose
  sanitized name was not cut at the length limit, that is, does not end in a period:
  then \<open>SanitizeName (SanitizeName s) = SanitizeName s\<close>. (A name that was cut ends in
  the marker \<^verbatim>\<open>...\<close>, which the second pass trims: lemma
  \<open>SanitizeName_truncated_not_stable\<close>.)
\<close>

theorem SanitizeName_idempotent:
  assumes "last (SanitizeName U s) \<noteq> 0x2E"
  shows "SanitizeName U (SanitizeName U s) = SanitizeName U s"
proof -
  let ?out = "SanitizeName U s"
  have ne: "?out \<noteq> []" by (rule SanitizeName_nonempty)
  have valid: "\<forall>r \<in> set ?out. validRune r" by (rule SanitizeName_valid)
  have first: "hd ?out \<noteq> 0x20" by (rule SanitizeName_hd)
  have last: "last ?out \<noteq> 0x20" by (rule SanitizeName_last_not_space)
  have free: "\<not> isReserved U ?out" by (rule SanitizeName_not_reserved)
  have short: "length ?out \<le> 255" by (rule SanitizeName_length)
  have "removeControlChars ?out = ?out" using valid by (rule removeControlChars_id)
  moreover have "processCharacters U ?out = ?out" using valid by (rule processCharacters_id)
  moreover have "applyWindowsRules U ?out = ?out"
    using ne valid first last assms free short by (rule applyWindowsRules_fixed)
  ultimately show ?thesis using ne by (simp add: SanitizeName_def)
qed

text \<open>The theorem at the name \<^verbatim>\<open>folder...\<close>, whose sanitized name is \<^verbatim>\<open>folder\<close>.\<close>

theorem SanitizeName_idempotent_witness:
  "last (SanitizeName ascii_unicode (runes ''folder...'')) \<noteq> 0x2E
   \<and> SanitizeName ascii_unicode (SanitizeName ascii_unicode (runes ''folder...''))
       = SanitizeName ascii_unicode (runes ''folder...'')"
proof -
  have h: "last (SanitizeName ascii_unicode (runes ''folder...'')) \<noteq> 0x2E"
    by (simp add: sanitize_eval)
  show ?thesis using h SanitizeName_idempotent [OF h] by simp
qed

text \<open>Claim C2 as stated fails at 300 letters \<^verbatim>\<open>a\<close>: the first pass gives 252 letters
  and \<^verbatim>\<open>...\<close>, the second pass gives something else (the 252 letters).\<close>

theorem SanitizeName_idempotent_counterexample:
  "SanitizeName ascii_unicode (SanitizeName ascii_unicode (replicate 300 0x61))
     \<noteq> SanitizeName ascii_unicode (replicate 300 0x61)"
proof -
  have "last (SanitizeName ascii_unicode (replicate 300 0x61)) = 0x2E"
    by (simp add: SanitizeName_300a runes_simps)
  then show ?thesis by (rule SanitizeName_truncated_not_stable)
qed

text \<open>
  Claim C5. The literal cases: the empty name and the name of three spaces give
  \<^verbatim>\<open>_empty_\<close>; \<^verbatim>\<open>CON\<close> gives \<^verbatim>\<open>CON_\<close> and \<^verbatim>\<open>con\<close> gives \<^verbatim>\<open>con_\<close>; \<^verbatim>\<open>caf\<close> followed by U+00E9
  gives \<^verbatim>\<open>cafe\<close>; \<^verbatim>\<open>bad<chars>\<close> gives \<^verbatim>\<open>bad_chars_\<close>; \<^verbatim>\<open>folder...\<close> gives \<^verbatim>\<open>folder\<close>; 300
  letters \<^verbatim>\<open>a\<close> give 252 letters \<^verbatim>\<open>a\<close> and \<^verbatim>\<open>...\<close>, 255 characters in all.
\<close>

theorem SanitizeName_literals:
  "SanitizeName U (runes '''') = runes ''_empty_''
   \<and> SanitizeName U (runes ''   '') = runes ''_empty_''
   \<and> SanitizeName U (runes ''CON'') = runes ''CON_''
   \<and> SanitizeName U (runes ''con'') = runes ''con_''
   \<and> SanitizeName U (runes ''caf'' @ [0xE9]) = runes ''cafe''
   \<and> SanitizeName U (runes ''bad<chars>'') = runes ''bad_chars_''
   \<and> SanitizeName U (runes ''folder...'') = runes ''folder''
   \<and> SanitizeName U (replicate 300 0x61) = replicate 252 0x61 @ runes ''...''
   \<and> length (replicate 252 (0x61::nat) @ runes ''...'') = 255"
proof -
  have 1: "SanitizeName U (runes '''') = runes ''_empty_''" by (simp add: sanitize_eval)
  have 2: "SanitizeName U (runes ''   '') = runes ''_empty_''" by (simp add: sanitize_eval)
  have 3: "SanitizeName U (runes ''CON'') = runes ''CON_''" by (simp add: sanitize_eval)
  have 4: "SanitizeName U (runes ''con'') = runes ''con_''" by (simp add: sanitize_eval)
  have 5: "SanitizeName U (runes ''caf'' @ [0xE9]) = runes ''cafe''" by (simp add: sanitize_eval)
  have 6: "SanitizeName U (runes ''bad<chars>'') = runes ''bad_chars_''" by (simp add: sanitize_eval)
  have 7: "SanitizeName U (runes ''folder...'') = runes ''folder''" by (simp add: sanitize_eval)
  have 8: "length (replicate 252 (0x61::nat) @ runes ''...'') = 255" by (simp add: runes_def)
  show ?thesis using 1 2 3 4 5 6 7 8 SanitizeName_300a [of U] by (intro conjI)
qed

text \<open>The theorem with the table that knows ASCII only.\<close>

theorem SanitizeName_literals_witness:
  "SanitizeName ascii_unicode (runes ''CON'') = runes ''CON_''
   \<and> SanitizeName ascii_unicode (replicate 300 0x61) = replicate 252 0x61 @ runes ''...''"
  using SanitizeName_literals [of ascii_unicode] by simp

section \<open>Properties of the processor\<close>






lemma resolveNameCollision_free:
  "\<not> pathExists sys w targetPath \<Longrightarrow>
   resolveNameCollision sys fsp w targetPath baseName = ((targetPath, None), [OpStat targetPath])"
  by (simp add: resolveNameCollision_def)

lemma resolveNameCollision_no_error:
  "snd (fst (resolveNameCollision sys fsp w targetPath baseName)) = None"
  by (simp add: resolveNameCollision_def Let_def split: prod.splits)

subsection \<open>The claims about the processor\<close>




lemmas path_eval =
  Join_def Dir_def Base_def stripSeparators_def Separator_def fromLastDot_def
  pathExists_def list_os_def readonly_os_def NewFileSystemProcessor_def


text \<open>
  Claim C7. If the desired name equals the entry's current name, \<open>ProcessRename\<close> returns
  at once with \<open>WasRenamed = False\<close> and \<open>Success = True\<close>, a nil error, no call to the
  file system (neither a stat nor a rename) and the file system as it was.
\<close>

theorem ProcessRename_same_name:
  "newName = Name folder \<Longrightarrow>
   ProcessRename sys fsp folder newName dryRun w =
     ((Some \<lparr>Success = True, OldPath = Path folder, NewPath = Path folder,
             WasRenamed = False, Error = None\<rparr>, None), [], w)"
  by (simp add: ProcessRename_def)

text \<open>The theorem at a folder named \<^verbatim>\<open>docs\<close>.\<close>

theorem ProcessRename_same_name_witness:
  "ProcessRename readonly_os (NewFileSystemProcessor 1000)
      \<lparr>Path = ''/d/docs'', Name = ''docs'', Depth = 1, Parent = ''/d''\<rparr> ''docs'' False [''/d/docs'']
    = ((Some \<lparr>Success = True, OldPath = ''/d/docs'', NewPath = ''/d/docs'',
              WasRenamed = False, Error = None\<rparr>, None), [], [''/d/docs''])"
  using ProcessRename_same_name
    [of "''docs''" "\<lparr>Path = ''/d/docs'', Name = ''docs'', Depth = 1, Parent = ''/d''\<rparr>"
        readonly_os "NewFileSystemProcessor 1000" False "[''/d/docs'']"]
  by simp

lemma performRename_cases:
  "performRename sys w old new =
     (case Rename sys w old new of
        (None, w') \<Rightarrow> (None, w')
      | (Some e, w') \<Rightarrow>
          (Some (ErrorfW (''failed to rename '' @ [CHR 0x27] @ old @ [CHR 0x27] @ '' to ''
              @ [CHR 0x27] @ new @ [CHR 0x27] @ '': '') e), w'))"
  by (simp add: performRename_def split: prod.splits option.splits)

text \<open>
  Claim C10. On every return path \<open>ProcessRename\<close> answers with a result and a nil error,
  and in the result \<open>Success\<close> is true exactly when \<open>Error\<close> is nil.
\<close>

theorem ProcessRename_success_iff_no_error:
  "\<exists>res. fst (ProcessRename sys fsp folder newName dryRun w) = (Some res, None)
         \<and> (Success res \<longleftrightarrow> Error res = None)"
proof (cases "newName = Name folder")
  case True
  then show ?thesis by (simp add: ProcessRename_def)
next
  case False
  obtain finalPath ops where r:
    "resolveNameCollision sys fsp w (Join (Parent folder) newName) newName = ((finalPath, None), ops)"
    using resolveNameCollision_no_error [of sys fsp w "Join (Parent folder) newName" newName]
    by (metis prod.collapse)
  show ?thesis
  proof (cases dryRun)
    case True
    then show ?thesis using False r by (simp add: ProcessRename_def)
  next
    case nd: False
    obtain err w' where p: "performRename sys w (Path folder) finalPath = (err, w')"
      by (cases "performRename sys w (Path folder) finalPath") auto
    show ?thesis using False r nd p by (cases err) (simp_all add: ProcessRename_def)
  qed
qed

text \<open>The theorem on a file system that refuses the rename.\<close>

theorem ProcessRename_success_iff_no_error_witness:
  "fst (ProcessRename readonly_os (NewFileSystemProcessor 1000)
          \<lparr>Path = ''/r/bad?'', Name = ''bad?'', Depth = 1, Parent = ''/r''\<rparr> ''bad_'' False
          [''/r/bad?''])
     \<noteq> (None, None)"
  using ProcessRename_success_iff_no_error
    [of readonly_os "NewFileSystemProcessor 1000"
        "\<lparr>Path = ''/r/bad?'', Name = ''bad?'', Depth = 1, Parent = ''/r''\<rparr>" "''bad_''" False
        "[''/r/bad?'']"]
  by auto

text \<open>
  Claim C8. When the rename itself fails and the run is not a dry run, the failure is
  in the result (\<open>Success = False\<close>, \<open>Error\<close> set) and the error that \<open>ProcessRename\<close>
  returns is nil; the loop of the service counts an error and goes on with the
  remaining entries.
\<close>

theorem ProcessRename_rename_failure:
  assumes "newName \<noteq> Name folder" and "\<not> dryRun"
    and "resolveNameCollision sys fsp w (Join (Parent folder) newName) newName = ((finalPath, None), ops)"
    and "Rename sys w (Path folder) finalPath = (Some e, w')"
    and "sanitizer (Name folder) = newName" and "world st = w"
  shows
    "ProcessRename sys fsp folder newName dryRun w =
       ((Some \<lparr>Success = False, OldPath = Path folder, NewPath = finalPath, WasRenamed = True,
               Error = Some (ErrorfW ''rename operation failed: ''
                 (ErrorfW (''failed to rename '' @ [CHR 0x27] @ Path folder @ [CHR 0x27] @ '' to ''
                    @ [CHR 0x27] @ finalPath @ [CHR 0x27] @ '': '') e))\<rparr>,
         None),
        ops @ [OpRename (Path folder) finalPath], w')
     \<and> (\<exists>st1. processFolders sanitizer (fsProcessor sys fsp) dryRun totalFolders i (folder # rest) st =
                processFolders sanitizer (fsProcessor sys fsp) dryRun totalFolders (i + 1) rest st1
              \<and> errorCount st1 = errorCount st + 1 \<and> renamedCount st1 = renamedCount st
              \<and> processedCount st1 = processedCount st + 1)"
proof -
  have 1: "ProcessRename sys fsp folder newName dryRun w =
       ((Some \<lparr>Success = False, OldPath = Path folder, NewPath = finalPath, WasRenamed = True,
               Error = Some (ErrorfW ''rename operation failed: ''
                 (ErrorfW (''failed to rename '' @ [CHR 0x27] @ Path folder @ [CHR 0x27] @ '' to ''
                    @ [CHR 0x27] @ finalPath @ [CHR 0x27] @ '': '') e))\<rparr>,
         None),
        ops @ [OpRename (Path folder) finalPath], w')"
    using assms(1-4) by (simp add: ProcessRename_def performRename_def)
  have "\<exists>st1. processFolder sanitizer (fsProcessor sys fsp) dryRun totalFolders i folder st = Inr st1
      \<and> errorCount st1 = errorCount st + 1 \<and> renamedCount st1 = renamedCount st
      \<and> processedCount st1 = processedCount st + 1"
    using assms(5,6) by (simp add: processFolder_def fsProcessor_def 1 Let_def)
  then show ?thesis using 1 by auto
qed

text \<open>The theorem on a file system that refuses the rename: the folder \<^verbatim>\<open>bad?\<close> is
  to become \<^verbatim>\<open>bad_\<close>.\<close>

theorem ProcessRename_rename_failure_witness:
  "fst (ProcessRename readonly_os (NewFileSystemProcessor 1000)
          \<lparr>Path = ''/r/bad?'', Name = ''bad?'', Depth = 1, Parent = ''/r''\<rparr> ''bad_'' False
          [''/r/bad?''])
     = (Some \<lparr>Success = False, OldPath = ''/r/bad?'', NewPath = ''/r/bad_'', WasRenamed = True,
              Error = Some (ErrorfW ''rename operation failed: ''
                (ErrorfW (''failed to rename '' @ [CHR 0x27] @ ''/r/bad?'' @ [CHR 0x27] @ '' to ''
                   @ [CHR 0x27] @ ''/r/bad_'' @ [CHR 0x27] @ '': '') ErrPermission))\<rparr>,
        None)"
proof -
  let ?folder = "\<lparr>Path = ''/r/bad?'', Name = ''bad?'', Depth = 1, Parent = ''/r''\<rparr>"
  let ?st = "\<lparr>processedCount = 0, renamedCount = 0, errorCount = 0, skippedCount = 0,
              reports = [], world = [''/r/bad?'']\<rparr>"
  have a: "''bad_'' \<noteq> Name ?folder" by simp
  have b: "\<not> False" by simp
  have c: "resolveNameCollision readonly_os (NewFileSystemProcessor 1000) [''/r/bad?'']
      (Join (Parent ?folder) ''bad_'') ''bad_'' = ((''/r/bad_'', None), [OpStat ''/r/bad_''])"
    by (simp add: resolveNameCollision_def path_eval)
  have d: "Rename readonly_os [''/r/bad?''] (Path ?folder) ''/r/bad_'' = (Some ErrPermission, [''/r/bad?''])"
    by (simp add: readonly_os_def)
  have e: "(\<lambda>n. ''bad_'') (Name ?folder) = ''bad_''" by simp
  have f: "world ?st = [''/r/bad?'']" by simp
  show ?thesis
    using ProcessRename_rename_failure [OF a b c d e f, of 1 0 "[]"] by simp
qed

section \<open>Properties of the walker\<close>

subsection \<open>Depths\<close>








lemma strictAncestor_irrefl: "\<not> strictAncestor x x"
  by (auto simp: strictAncestor_def strict_prefix_def prefix_def)

subsection \<open>Sorting\<close>










subsection \<open>The walk as a whole\<close>




subsection \<open>Directories that cannot be read\<close>





















text \<open>One entry that cannot be read, met while the entries of a directory are
  walked.\<close>

lemma walkNames_unreadable:
  assumes "Join p name \<noteq> root"
  shows
    "walkNames (\<lambda>p info err. processWalkPath fsw p info err root) p ((name, Unreadable e) # rest) st =
       walkNames (\<lambda>p info err. processWalkPath fsw p info err root) p rest
         (if skipInaccessible fsw \<and> IsPermission e
          then st\<lparr>collectErrors := collectErrors st @ [Errorf (''permission denied: '' @ Join p name)]\<rparr>
          else st\<lparr>folders := folders st @ [extractFolderInfoFromPath (Join p name) root],
                  collectErrors := collectErrors st @
                    [ErrorfW (''error accessing '' @ Join p name @ '': '') e]\<rparr>)"
  using assms by (simp add: processWalkPath_def)









subsection \<open>The claims about the walker\<close>










section \<open>Properties of the service\<close>

lemma processFolder_counts:
  assumes "processFolder sanitizer processor dryRun totalFolders i folder st = Inr st1"
  shows "processedCount st1 = processedCount st + 1
    \<and> errorCount st \<le> errorCount st1 \<and> renamedCount st \<le> renamedCount st1
    \<and> skippedCount st \<le> skippedCount st1
    \<and> (errorCount st1 - errorCount st) + (renamedCount st1 - renamedCount st)
        + (skippedCount st1 - skippedCount st) \<le> 1"
  using assms
  by (auto simp: processFolder_def Let_def split: prod.splits option.splits if_splits)

lemma processFolders_counts:
  "processFolders sanitizer processor dryRun totalFolders i fs st = Inr st1 \<Longrightarrow>
   processedCount st1 = processedCount st + int (length fs)
    \<and> errorCount st \<le> errorCount st1 \<and> renamedCount st \<le> renamedCount st1
    \<and> skippedCount st \<le> skippedCount st1
    \<and> (errorCount st1 - errorCount st) + (renamedCount st1 - renamedCount st)
        + (skippedCount st1 - skippedCount st) \<le> int (length fs)"
proof (induction fs arbitrary: i st)
  case Nil
  then show ?case by simp
next
  case (Cons folder rest)
  from Cons.prems obtain st0 where
    a: "processFolder sanitizer processor dryRun totalFolders i folder st = Inr st0"
    and b: "processFolders sanitizer processor dryRun totalFolders (i + 1) rest st0 = Inr st1"
    by (auto split: sum.splits)
  show ?case using processFolder_counts [OF a] Cons.IH [OF b] by simp
qed



subsection \<open>The claim about the service\<close>











end
